theory Spec2Isabelle
  imports Main "HOL-Library.Word"
begin

section \<open>Values of the Go program\<close>

text \<open>
  The package wraps a \<^verbatim>\<open>net.Conn\<close> into an event-driven \<^verbatim>\<open>Connection\<close>
  (file \<^verbatim>\<open>conn.go\<close>). A byte slice is a list of bytes; the nil slice, which
  \<^verbatim>\<open>ReadLineReader\<close> returns beside an error, is \<open>None\<close>.
\<close>

type_synonym byte = "8 word"

type_synonym slice = "byte list option"

definition len :: "slice \<Rightarrow> nat" where
  "len s = (case s of None \<Rightarrow> 0 | Some bs \<Rightarrow> length bs)"

text \<open>
  A non-nil \<^verbatim>\<open>error\<close> value, as far as \<^verbatim>\<open>conn.go\<close> inspects it: the sentinel
  \<^verbatim>\<open>io.EOF\<close> (compared by identity; its type has no \<^verbatim>\<open>Temporary\<close> method), a
  \<^verbatim>\<open>*net.OpError\<close> (which implements \<^verbatim>\<open>net.Error\<close>) with the result of its
  \<^verbatim>\<open>Temporary()\<close> and the text of \<^verbatim>\<open>opErr.Err.Error()\<close>, any other
  implementation of \<^verbatim>\<open>net.Error\<close> with the result of \<^verbatim>\<open>Temporary()\<close> and
  its text, and any other error with its text. The field \<^verbatim>\<open>Err\<close> of a
  \<^verbatim>\<open>*net.OpError\<close> is taken to be non-nil, as package net documents it.
  The nil error is \<open>None\<close>.
\<close>

datatype go_error =
    EOF
  | OpError bool string
  | NetError bool string
  | OtherError string

type_synonym error = "go_error option"

text \<open>The type assertion \<^verbatim>\<open>err.(net.Error)\<close>, giving \<^verbatim>\<open>netErr.Temporary()\<close>.\<close>

fun as_net_Error :: "go_error \<Rightarrow> bool option" where
  "as_net_Error EOF = None"
| "as_net_Error (OpError t m) = Some t"
| "as_net_Error (NetError t m) = Some t"
| "as_net_Error (OtherError m) = None"

text \<open>The type assertion \<^verbatim>\<open>err.(*net.OpError)\<close>, giving \<^verbatim>\<open>opErr.Err.Error()\<close>.\<close>

fun as_OpError :: "go_error \<Rightarrow> string option" where
  "as_OpError EOF = None"
| "as_OpError (OpError t m) = Some m"
| "as_OpError (NetError t m) = None"
| "as_OpError (OtherError m) = None"

definition hideTempError :: "error \<Rightarrow> error" where
  "hideTempError err =
     (case err of
        None \<Rightarrow> None
      | Some e \<Rightarrow>
          (case as_net_Error e of
             Some True \<Rightarrow> None
           | _ \<Rightarrow> err))"

definition isClosedConnErrr :: "error \<Rightarrow> bool" where
  "isClosedConnErrr err =
     (if err = Some EOF then True
      else (case err of
              None \<Rightarrow> False
            | Some e \<Rightarrow>
                (case as_OpError e of
                   Some m \<Rightarrow> m = ''use of closed network connection''
                 | None \<Rightarrow> False)))"

section \<open>The reference framing function\<close>

text \<open>
  One call \<^verbatim>\<open>rawConn.Read(readBuffer)\<close> on the one-byte buffer returns a count,
  may store a byte in \<^verbatim>\<open>readBuffer[0]\<close> (\<open>None\<close>: the buffer is left as it was)
  and returns an error or nil. The stream is the list of the results of its
  successive reads; a read past the end of the list blocks for ever, so the
  function does not return there (\<open>None\<close>).
\<close>

record read_result =
  rd_n :: nat
  rd_byte :: "byte option"
  rd_err :: error

type_synonym stream = "read_result list"

fun ReadLineReader_loop ::
  "byte list \<Rightarrow> byte \<Rightarrow> stream \<Rightarrow> ((slice \<times> error) \<times> stream) option" where
  "ReadLineReader_loop buffer rb [] = None"
| "ReadLineReader_loop buffer rb (r # rs) =
     (let rb' = (case rd_byte r of Some b \<Rightarrow> b | None \<Rightarrow> rb) in
      if rd_err r \<noteq> None then Some ((None, rd_err r), rs)
      else
        (let buffer' = buffer @ [rb'] in
         if rb' = 0x0A then Some ((Some buffer', None), rs)
         else ReadLineReader_loop buffer' rb' rs))"

definition ReadLineReader :: "stream \<Rightarrow> ((slice \<times> error) \<times> stream) option" where
  "ReadLineReader rawConn = ReadLineReader_loop [] 0 rawConn"

text \<open>A read that delivers the byte \<open>b\<close> and succeeds.\<close>

definition read_ok :: "byte \<Rightarrow> read_result" where
  "read_ok b = \<lparr>rd_n = 1, rd_byte = Some b, rd_err = None\<rparr>"

section \<open>The connection\<close>

text \<open>
  A function value is nil (\<open>None\<close>), the no-op of the package (\<open>Nop\<close>, the
  functions \<^verbatim>\<open>onDataNop\<close>, \<^verbatim>\<open>onErrNop\<close> and \<^verbatim>\<open>onClosedNop\<close> with an
  empty body) or a function of the application, named by a number.
\<close>

datatype fn = Nop | Fn nat

type_synonym func = "fn option"

definition onDataNop :: func where "onDataNop = Some Nop"
definition onErrNop :: func where "onErrNop = Some Nop"
definition onClosedNop :: func where "onClosedNop = Some Nop"

text \<open>
  The goroutines: the application's (which call the methods), the read task
  started by \<^verbatim>\<open>Wrap\<close>, a task started by \<^verbatim>\<open>SendAsync\<close>, and the task started
  by \<^verbatim>\<open>go c.notifyClose()\<close>. What a goroutine does to the stream, to the wait
  group and to the handlers is recorded, in order, with the goroutine that does it.
\<close>

datatype task = Caller | ReadTask | SendTask | CloseTask

datatype effect =
    ReaderCall
  | InnerWrite slice
  | InnerClose
  | WgAdd
  | WgDone
  | WaitReturn
  | Go task
  | CallData func slice
  | CallErr func go_error
  | CallClosed func

text \<open>
  The struct \<^verbatim>\<open>conn\<close> has the three handler slots and the counter of the wait
  group \<^verbatim>\<open>wg\<close>; \<^verbatim>\<open>inner\<close> and \<^verbatim>\<open>reader\<close> belong to the environment, which
  supplies the result of each of their calls. The mutex only guards the slots, and
  each step below is atomic. The other fields are the goroutines of the
  connection that have not finished (is the read task running, the data of each
  pending asynchronous send, the number of pending close notifications, the
  number of callers blocked in \<^verbatim>\<open>wg.Wait()\<close>) and the effects so far, oldest
  first.
\<close>

record conn =
  onData :: func
  onErr :: func
  onClosed :: func
  wg :: int
  readTask :: bool
  sendTasks :: "slice list"
  closeTasks :: nat
  waiters :: nat
  history :: "(task \<times> effect) list"

definition emit :: "task \<Rightarrow> effect \<Rightarrow> conn \<Rightarrow> conn" where
  "emit g e c = c\<lparr>history := history c @ [(g, e)]\<rparr>"

definition wg_Add :: "task \<Rightarrow> conn \<Rightarrow> conn" where
  "wg_Add g c = emit g WgAdd (c\<lparr>wg := wg c + 1\<rparr>)"

definition wg_Done :: "task \<Rightarrow> conn \<Rightarrow> conn" where
  "wg_Done g c = emit g WgDone (c\<lparr>wg := wg c - 1\<rparr>)"

definition Wrap :: conn where
  "Wrap =
     (let result = \<lparr>onData = onDataNop, onErr = onErrNop, onClosed = onClosedNop,
                    wg = 0, readTask = False, sendTasks = [], closeTasks = 0,
                    waiters = 0, history = []\<rparr>;
          result = wg_Add Caller result
      in emit Caller (Go ReadTask) (result\<lparr>readTask := True\<rparr>))"

definition OnData :: "conn \<Rightarrow> func \<Rightarrow> conn" where
  "OnData c handler = c\<lparr>onData := (if handler = None then onDataNop else handler)\<rparr>"

definition OnErr :: "conn \<Rightarrow> func \<Rightarrow> conn" where
  "OnErr c handler = c\<lparr>onErr := (if handler = None then onErrNop else handler)\<rparr>"

definition OnClosed :: "conn \<Rightarrow> func \<Rightarrow> conn" where
  "OnClosed c handler = c\<lparr>onClosed := (if handler = None then onClosedNop else handler)\<rparr>"

definition notifyErr :: "task \<Rightarrow> conn \<Rightarrow> go_error \<Rightarrow> conn" where
  "notifyErr g c err = emit g (CallErr (onErr c) err) c"

definition notifyData :: "task \<Rightarrow> conn \<Rightarrow> slice \<Rightarrow> conn" where
  "notifyData g c data = emit g (CallData (onData c) data) c"

definition notifyClose :: "task \<Rightarrow> conn \<Rightarrow> conn" where
  "notifyClose g c = emit g (CallClosed (onClosed c)) c"

text \<open>
  \<^verbatim>\<open>Send\<close>, run by goroutine \<open>g\<close>; \<open>w\<close> is the error that \<^verbatim>\<open>c.inner.Write(data)\<close>
  returns. The result is the connection and the error returned.
\<close>

definition Send :: "task \<Rightarrow> conn \<Rightarrow> slice \<Rightarrow> error \<Rightarrow> conn \<times> error" where
  "Send g c data w =
     (let c = emit g (InnerWrite data) c in
      case hideTempError w of
        Some err \<Rightarrow> (emit g InnerClose c, Some err)
      | None \<Rightarrow> (c, None))"

text \<open>\<^verbatim>\<open>SendAsync\<close>: the call itself, and the body of the goroutine it starts.\<close>

definition SendAsync :: "conn \<Rightarrow> slice \<Rightarrow> conn" where
  "SendAsync c data =
     (let c = wg_Add Caller c in
      emit Caller (Go SendTask) (c\<lparr>sendTasks := sendTasks c @ [data]\<rparr>))"

definition SendAsync_go :: "conn \<Rightarrow> slice \<Rightarrow> error \<Rightarrow> conn" where
  "SendAsync_go c data w =
     (let (c, err) = Send SendTask c data w;
          c = (case hideTempError err of
                 Some err \<Rightarrow> notifyErr SendTask c err
               | None \<Rightarrow> c)
      in wg_Done SendTask c)"

text \<open>
  \<^verbatim>\<open>Close\<close> closes the stream and then blocks in \<^verbatim>\<open>c.wg.Wait()\<close>, which
  returns once the counter is zero.
\<close>

definition Close :: "conn \<Rightarrow> conn" where
  "Close c = (emit Caller InnerClose c)\<lparr>waiters := waiters c + 1\<rparr>"

definition Close_return :: "conn \<Rightarrow> conn option" where
  "Close_return c =
     (if 0 < waiters c \<and> wg c = 0
      then Some (emit Caller WaitReturn (c\<lparr>waiters := waiters c - 1\<rparr>))
      else None)"

text \<open>
  The read task. One iteration of the loop of \<^verbatim>\<open>runRead\<close> with the result
  \<open>(data, err)\<close> of \<^verbatim>\<open>c.reader(c.inner)\<close>: the flag says whether the loop goes
  on. The deferred function runs when the loop is left. The loop itself runs over
  the results the framing function returns; when they are used up the task is
  blocked in the framing function and still running.
\<close>

definition runRead_iter :: "conn \<Rightarrow> slice \<times> error \<Rightarrow> bool \<times> conn" where
  "runRead_iter c r =
     (let (data, err) = r;
          c = emit ReadTask ReaderCall c in
      case hideTempError err of
        Some err \<Rightarrow>
          if isClosedConnErrr (Some err) then (False, c)
          else (False, notifyErr ReadTask c err)
      | None \<Rightarrow>
          if len data > 0 then (True, notifyData ReadTask c data)
          else (True, c))"

definition runRead_defer :: "conn \<Rightarrow> conn" where
  "runRead_defer c =
     (let c = emit ReadTask InnerClose c;
          c = wg_Done ReadTask c;
          c = emit ReadTask (Go CloseTask) (c\<lparr>closeTasks := closeTasks c + 1\<rparr>)
      in c\<lparr>readTask := False\<rparr>)"

fun runRead :: "conn \<Rightarrow> (slice \<times> error) list \<Rightarrow> conn" where
  "runRead c [] = c"
| "runRead c (r # rs) =
     (case runRead_iter c r of
        (True, c') \<Rightarrow> runRead c' rs
      | (False, c') \<Rightarrow> runRead_defer c')"

section \<open>Interleavings\<close>

text \<open>
  What can happen next to a connection: the application calls a method (for
  \<^verbatim>\<open>Send\<close> with the error of the write), a blocked \<^verbatim>\<open>Close\<close> returns, the read
  task runs one iteration with the result of the framing function, the \<open>i\<close>-th
  pending asynchronous send runs with the error of its write, or a pending close
  notification runs. A step that cannot happen in the state is \<open>None\<close>.
\<close>

datatype action =
    DoOnData func
  | DoOnErr func
  | DoOnClosed func
  | DoSend slice error
  | DoSendAsync slice
  | DoClose
  | CloseReturns
  | ReadIter slice error
  | RunSend nat error
  | RunNotifyClose

fun step :: "conn \<Rightarrow> action \<Rightarrow> conn option" where
  "step c (DoOnData h) = Some (OnData c h)"
| "step c (DoOnErr h) = Some (OnErr c h)"
| "step c (DoOnClosed h) = Some (OnClosed c h)"
| "step c (DoSend data w) = Some (fst (Send Caller c data w))"
| "step c (DoSendAsync data) = Some (SendAsync c data)"
| "step c DoClose = Some (Close c)"
| "step c CloseReturns = Close_return c"
| "step c (ReadIter data err) =
     (if readTask c then Some (runRead c [(data, err)]) else None)"
| "step c (RunSend i w) =
     (if i < length (sendTasks c)
      then Some (SendAsync_go (c\<lparr>sendTasks := take i (sendTasks c) @ drop (Suc i) (sendTasks c)\<rparr>)
                   (sendTasks c ! i) w)
      else None)"
| "step c RunNotifyClose =
     (if 0 < closeTasks c
      then Some (notifyClose CloseTask (c\<lparr>closeTasks := closeTasks c - 1\<rparr>))
      else None)"

fun run :: "conn \<Rightarrow> action list \<Rightarrow> conn option" where
  "run c [] = Some c"
| "run c (a # as) = (case step c a of None \<Rightarrow> None | Some c' \<Rightarrow> run c' as)"

section \<open>Properties of a history\<close>

text \<open>
  How often the read task has started the close notification
  (\<^verbatim>\<open>go c.notifyClose()\<close>), how often the closed handler has been called, and
  whether the read task was silent after each of these. Which function value a
  call invoked, the calls that invoked nil, and the calls of the error handler.
  The goroutines the wrapper has started and that have not finished, and those of
  them that \<^verbatim>\<open>Wrap\<close> and \<^verbatim>\<open>SendAsync\<close> registered with the wait group.
\<close>

fun is_CallClosed :: "effect \<Rightarrow> bool" where
  "is_CallClosed (CallClosed h) = True"
| "is_CallClosed e = False"

definition dispatched :: "(task \<times> effect) list \<Rightarrow> nat" where
  "dispatched h = length (filter (\<lambda>x. snd x = Go CloseTask) h)"

definition delivered :: "(task \<times> effect) list \<Rightarrow> nat" where
  "delivered h = length (filter (\<lambda>x. is_CallClosed (snd x)) h)"

definition closing :: "task \<times> effect \<Rightarrow> bool" where
  "closing x = (snd x = Go CloseTask \<or> is_CallClosed (snd x))"

fun ceased :: "(task \<times> effect) list \<Rightarrow> bool" where
  "ceased [] = True"
| "ceased (x # xs) = ((closing x \<longrightarrow> list_all (\<lambda>y. fst y \<noteq> ReadTask) xs) \<and> ceased xs)"

fun invoked :: "effect \<Rightarrow> func option" where
  "invoked (CallData h d) = Some h"
| "invoked (CallErr h e) = Some h"
| "invoked (CallClosed h) = Some h"
| "invoked e = None"

definition nil_calls :: "(task \<times> effect) list \<Rightarrow> (task \<times> effect) list" where
  "nil_calls h = filter (\<lambda>x. invoked (snd x) = Some None) h"

definition unfinished :: "conn \<Rightarrow> int" where
  "unfinished c = (if readTask c then 1 else 0) + int (length (sendTasks c)) + int (closeTasks c)"

definition tracked :: "conn \<Rightarrow> int" where
  "tracked c = (if readTask c then 1 else 0) + int (length (sendTasks c))"

fun is_CallErr :: "effect \<Rightarrow> bool" where
  "is_CallErr (CallErr h e) = True"
| "is_CallErr e = False"

definition err_calls :: "(task \<times> effect) list \<Rightarrow> (task \<times> effect) list" where
  "err_calls h = filter (\<lambda>x. is_CallErr (snd x)) h"

definition handlers_inv :: "conn \<Rightarrow> bool" where
  "handlers_inv c = (onData c \<noteq> None \<and> onErr c \<noteq> None \<and> onClosed c \<noteq> None \<and> nil_calls (history c) = [])"

definition closed_inv :: "conn \<Rightarrow> bool" where
  "closed_inv c =
     (dispatched (history c) = (if readTask c then 0 else 1)
      \<and> delivered (history c) + closeTasks c = dispatched (history c)
      \<and> ceased (history c)
      \<and> (readTask c \<longrightarrow> (\<forall>x\<in>set (history c). \<not> closing x)))"

section \<open>Lemmas\<close>

lemma hideTempError_simps:
  "hideTempError None = None"
  "hideTempError (Some e) = (if as_net_Error e = Some True then None else Some e)"
  by (auto simp: hideTempError_def split: option.splits bool.splits)

lemma ceased_append:
  "ceased (xs @ ys) =
     (ceased xs \<and> ceased ys \<and> ((\<exists>x\<in>set xs. closing x) \<longrightarrow> list_all (\<lambda>y. fst y \<noteq> ReadTask) ys))"
  by (induction xs) (auto simp: list_all_iff)

lemmas conn_defs = emit_def wg_Add_def wg_Done_def OnData_def OnErr_def OnClosed_def
  notifyErr_def notifyData_def notifyClose_def Send_def SendAsync_def SendAsync_go_def
  Close_def Close_return_def runRead_iter_def runRead_defer_def

lemma closed_inv_Wrap: "closed_inv Wrap"
  by (simp add: closed_inv_def Wrap_def conn_defs dispatched_def delivered_def closing_def)

lemma closed_inv_On:
  "closed_inv c \<Longrightarrow> closed_inv (OnData c h)"
  "closed_inv c \<Longrightarrow> closed_inv (OnErr c h)"
  "closed_inv c \<Longrightarrow> closed_inv (OnClosed c h)"
  by (simp_all add: closed_inv_def OnData_def OnErr_def OnClosed_def)

lemma closed_inv_emit:
  "closed_inv c \<Longrightarrow> g \<noteq> ReadTask \<Longrightarrow> \<not> closing (g, e) \<Longrightarrow> closed_inv (emit g e c)"
  by (auto simp: closed_inv_def emit_def dispatched_def delivered_def closing_def ceased_append)

lemma closed_inv_emit_read:
  "closed_inv c \<Longrightarrow> readTask c \<Longrightarrow> \<not> closing (g, e) \<Longrightarrow> closed_inv (emit g e c)"
  by (auto simp: closed_inv_def emit_def dispatched_def delivered_def closing_def ceased_append)

lemma closed_inv_fields:
  "closed_inv c \<Longrightarrow> closed_inv (c\<lparr>wg := n\<rparr>)"
  "closed_inv c \<Longrightarrow> closed_inv (c\<lparr>sendTasks := ts\<rparr>)"
  "closed_inv c \<Longrightarrow> closed_inv (c\<lparr>waiters := k\<rparr>)"
  by (simp_all add: closed_inv_def)

lemma readTask_emit [simp]: "readTask (emit g e c) = readTask c"
  by (simp add: emit_def)

lemma closed_inv_Send: "closed_inv c \<Longrightarrow> g \<noteq> ReadTask \<Longrightarrow> closed_inv (fst (Send g c d w))"
  by (simp add: Send_def Let_def closed_inv_emit closing_def split: option.splits)

lemma closed_inv_SendAsync: "closed_inv c \<Longrightarrow> closed_inv (SendAsync c d)"
  by (simp add: SendAsync_def wg_Add_def Let_def closed_inv_emit closed_inv_fields closing_def)

lemma closed_inv_Close: "closed_inv c \<Longrightarrow> closed_inv (Close c)"
  by (simp add: Close_def closed_inv_emit closed_inv_fields closing_def)

lemma closed_inv_Close_return: "closed_inv c \<Longrightarrow> Close_return c = Some c' \<Longrightarrow> closed_inv c'"
  by (auto simp: Close_return_def closed_inv_emit closed_inv_fields closing_def split: if_splits)

lemma closed_inv_SendAsync_go: "closed_inv c \<Longrightarrow> closed_inv (SendAsync_go c d w)"
  by (simp add: SendAsync_go_def Send_def notifyErr_def wg_Done_def Let_def closed_inv_emit
        closed_inv_fields closing_def split: option.splits)

lemma closed_inv_runRead_defer:
  "closed_inv c \<Longrightarrow> readTask c \<Longrightarrow> closed_inv (runRead_defer c)"
  by (auto simp: closed_inv_def runRead_defer_def wg_Done_def emit_def Let_def dispatched_def
        delivered_def closing_def ceased_append)

lemma closed_inv_runRead_iter:
  "closed_inv c \<Longrightarrow> readTask c \<Longrightarrow>
   closed_inv (snd (runRead_iter c r)) \<and> readTask (snd (runRead_iter c r))"
  by (cases r)
     (simp add: runRead_iter_def notifyErr_def notifyData_def Let_def closed_inv_emit_read
        closing_def split: option.splits)

lemma runRead_Cons:
  "runRead c (r # rs) =
     (if fst (runRead_iter c r) then runRead (snd (runRead_iter c r)) rs
      else runRead_defer (snd (runRead_iter c r)))"
  by (cases "runRead_iter c r") auto

lemma closed_inv_runRead: "closed_inv c \<Longrightarrow> readTask c \<Longrightarrow> closed_inv (runRead c rs)"
proof (induction rs arbitrary: c)
  case Nil
  then show ?case by simp
next
  case (Cons r rs)
  from closed_inv_runRead_iter [OF Cons.prems, of r]
  have step: "closed_inv (snd (runRead_iter c r))" "readTask (snd (runRead_iter c r))"
    by simp_all
  show ?case
  proof (cases "fst (runRead_iter c r)")
    case True
    then show ?thesis using Cons.IH [OF step] by (simp only: runRead_Cons if_True)
  next
    case False
    then show ?thesis using closed_inv_runRead_defer [OF step] by (simp only: runRead_Cons if_False)
  qed
qed

lemma closed_inv_notifyClose:
  assumes "closed_inv c" and "step c RunNotifyClose = Some c'"
  shows "closed_inv c'"
proof -
  from assms have pos: "0 < closeTasks c"
    and c': "c' = notifyClose CloseTask (c\<lparr>closeTasks := closeTasks c - 1\<rparr>)"
    by (auto split: if_splits)
  from assms(1) pos have nr: "\<not> readTask c"
    by (auto simp: closed_inv_def split: if_splits)
  with assms(1) pos have del: "delivered (history c) = 0" and one: "closeTasks c = Suc 0"
    and dis: "dispatched (history c) = Suc 0" and cea: "ceased (history c)"
    by (auto simp: closed_inv_def)
  have h: "history c' = history c @ [(CloseTask, CallClosed (onClosed c))]"
    and f: "readTask c' = readTask c" "closeTasks c' = 0"
    using one by (simp_all add: c' notifyClose_def emit_def)
  have "dispatched (history c') = Suc 0"
    using dis by (simp add: h dispatched_def)
  moreover have "delivered (history c') = Suc 0"
    using del by (simp add: h delivered_def)
  moreover have "ceased (history c')"
    using cea by (simp add: h ceased_append)
  ultimately show ?thesis
    using nr by (simp add: closed_inv_def f)
qed

lemma closed_inv_step: "closed_inv c \<Longrightarrow> step c a = Some c' \<Longrightarrow> closed_inv c'"
proof (cases a)
  case RunNotifyClose
  assume "closed_inv c" "step c a = Some c'"
  then show ?thesis using RunNotifyClose closed_inv_notifyClose by blast
qed (auto simp: closed_inv_On closed_inv_Send closed_inv_SendAsync closed_inv_Close
        closed_inv_Close_return closed_inv_SendAsync_go closed_inv_fields
        closed_inv_runRead simp del: runRead.simps split: if_splits)

lemma handlers_inv_Wrap: "handlers_inv Wrap"
  by (simp add: handlers_inv_def Wrap_def conn_defs nil_calls_def onDataNop_def onErrNop_def onClosedNop_def)

lemma run_invariant:
  assumes "P c" and "\<And>c a c'. P c \<Longrightarrow> step c a = Some c' \<Longrightarrow> P c'" and "run c as = Some c'"
  shows "P c'"
  using assms(1,3)
proof (induction as arbitrary: c)
  case Nil
  then show ?case by simp
next
  case (Cons a as)
  then show ?case by (auto split: option.splits dest: assms(2))
qed

lemma handlers_inv_step: "handlers_inv c \<Longrightarrow> step c a = Some c' \<Longrightarrow> handlers_inv c'"
  by (cases a)
     (auto simp: handlers_inv_def conn_defs nil_calls_def onDataNop_def onErrNop_def onClosedNop_def
        Let_def split: if_splits option.splits prod.splits)

lemma tracked_Wrap: "wg Wrap = tracked Wrap"
  by (simp add: tracked_def Wrap_def conn_defs)

lemma tracked_step: "wg c = tracked c \<Longrightarrow> step c a = Some c' \<Longrightarrow> wg c' = tracked c'"
  by (cases a)
     (auto simp: tracked_def conn_defs Let_def min_def
         split: if_splits option.splits prod.splits)

lemma runRead_exit:
  "hideTempError err \<noteq> None \<Longrightarrow> \<not> readTask (runRead c [(data, err)])"
  by (auto simp: runRead_iter_def runRead_defer_def Let_def split: option.splits)

lemma ReadLineReader_loop_ok:
  "10 \<in> set bs \<Longrightarrow>
   ReadLineReader_loop buffer rb (map read_ok bs @ rest) =
     Some ((Some (buffer @ takeWhile (\<lambda>b. b \<noteq> 10) bs @ [10]), None),
           map read_ok (tl (dropWhile (\<lambda>b. b \<noteq> 10) bs)) @ rest)"
  by (induction bs arbitrary: buffer rb) (auto simp: read_ok_def Let_def)

lemma ReadLineReader_loop_fail:
  "10 \<notin> set bs \<Longrightarrow> rd_err r = Some e \<Longrightarrow>
   ReadLineReader_loop buffer rb (map read_ok bs @ r # rest) = Some ((None, Some e), rest)"
  by (induction bs arbitrary: buffer rb) (auto simp: read_ok_def Let_def)

lemma ReadLineReader_loop_nil:
  "ReadLineReader_loop buffer rb s = Some ((d, err), rest) \<Longrightarrow> err \<noteq> None \<Longrightarrow> d = None"
  by (induction s arbitrary: buffer rb) (auto simp: Let_def split: if_splits)

lemma isClosedConnErrr_simps:
  "isClosedConnErrr (Some e) =
     (e = EOF \<or> as_OpError e = Some ''use of closed network connection'')"
  by (cases e) (auto simp: isClosedConnErrr_def)

lemma wg_runRead_exit:
  "\<not> fst (runRead_iter c r) \<Longrightarrow> wg (runRead c (r # rs)) = wg c - 1"
  by (cases r)
     (auto simp: runRead_Cons runRead_iter_def runRead_defer_def notifyErr_def notifyData_def
        wg_Done_def emit_def Let_def split: option.splits if_splits simp del: runRead.simps)

section \<open>The claims\<close>

text \<open>
  C1. In every interleaving, the read task starts the close notification exactly
  once, when its loop is left, and never before; the closed handler is called at
  most once, and exactly once as soon as the started notification has run; the
  read task does nothing after the notification was started or delivered. Every
  error that is not transient leaves the loop (end of stream, closed connection,
  genuine error, also after \<^verbatim>\<open>Close\<close>): the deferred function then closes the
  stream, releases the wait group and starts the notification, in this order and
  as the last effects of the read task. The started notification calls the
  function that is in the slot \<^verbatim>\<open>onClosed\<close> when it runs, which is the handler
  registered last. Calls of \<^verbatim>\<open>Close\<close>, however many, add no notification.
  A call of a handler is one step here: the statement is about runs in which
  every handler that is called returns.
\<close>

theorem closed_notified_once:
  assumes "run Wrap acts = Some c"
  shows "dispatched (history c) = (if readTask c then 0 else 1)
       \<and> delivered (history c) + closeTasks c = dispatched (history c)
       \<and> delivered (history c) \<le> 1
       \<and> ceased (history c)
       \<and> (readTask c \<and> hideTempError err \<noteq> None \<longrightarrow>
            (\<exists>c'. step c (ReadIter data err) = Some c' \<and> \<not> readTask c'
                  \<and> dispatched (history c') = 1 \<and> closeTasks c' = 1
                  \<and> history c' =
                      history (snd (runRead_iter c (data, err)))
                        @ [(ReadTask, InnerClose), (ReadTask, WgDone), (ReadTask, Go CloseTask)]))
       \<and> (0 < closeTasks c \<longrightarrow>
            (\<exists>c'. step c RunNotifyClose = Some c' \<and> delivered (history c') = 1
                  \<and> closeTasks c' = 0
                  \<and> history c' = history c @ [(CloseTask, CallClosed (onClosed c))]))
       \<and> (0 < closeTasks c \<and> h \<noteq> None \<longrightarrow>
            (\<exists>c'. step (OnClosed c h) RunNotifyClose = Some c'
                  \<and> history c' = history c @ [(CloseTask, CallClosed h)]))"
proof -
  have inv: "closed_inv c"
    using closed_inv_Wrap closed_inv_step assms by (rule run_invariant)
  then have base: "dispatched (history c) = (if readTask c then 0 else 1)"
    "delivered (history c) + closeTasks c = dispatched (history c)"
    "ceased (history c)"
    by (simp_all add: closed_inv_def)
  then have le: "delivered (history c) \<le> 1"
    by (simp split: if_splits)
  have exit: "\<exists>c'. step c (ReadIter data err) = Some c' \<and> \<not> readTask c'
                  \<and> dispatched (history c') = 1 \<and> closeTasks c' = 1
                  \<and> history c' =
                      history (snd (runRead_iter c (data, err)))
                        @ [(ReadTask, InnerClose), (ReadTask, WgDone), (ReadTask, Go CloseTask)]"
    if "readTask c" "hideTempError err \<noteq> None"
  proof -
    let ?c' = "runRead c [(data, err)]"
    have s: "step c (ReadIter data err) = Some ?c'" using that by simp
    have nr: "\<not> readTask ?c'" using that(2) by (rule runRead_exit)
    have stop: "\<not> fst (runRead_iter c (data, err))"
      using that(2) by (auto simp: runRead_iter_def Let_def split: option.splits)
    then have eq: "?c' = runRead_defer (snd (runRead_iter c (data, err)))"
      by (simp only: runRead_Cons if_False)
    have hist: "history ?c' =
        history (snd (runRead_iter c (data, err)))
          @ [(ReadTask, InnerClose), (ReadTask, WgDone), (ReadTask, Go CloseTask)]"
      unfolding eq by (simp add: runRead_defer_def wg_Done_def emit_def Let_def)
    have "closed_inv ?c'" using inv s by (rule closed_inv_step)
    moreover have "delivered (history ?c') = delivered (history c)"
      using that(2)
      by (auto simp: runRead_iter_def runRead_defer_def notifyErr_def wg_Done_def emit_def
          delivered_def Let_def split: option.splits)
    ultimately have "dispatched (history ?c') = 1" "closeTasks ?c' = 1"
      using nr base that(1)
      by (auto simp: closed_inv_def simp del: runRead.simps step.simps)
    with s nr hist show ?thesis by blast
  qed
  have deliver: "\<exists>c'. step c RunNotifyClose = Some c' \<and> delivered (history c') = 1
                  \<and> closeTasks c' = 0
                  \<and> history c' = history c @ [(CloseTask, CallClosed (onClosed c))]"
    if "0 < closeTasks c"
  proof -
    let ?c' = "notifyClose CloseTask (c\<lparr>closeTasks := closeTasks c - 1\<rparr>)"
    have s: "step c RunNotifyClose = Some ?c'" using that by simp
    have nr: "\<not> readTask c" using base(1,2) that by (cases "readTask c") simp_all
    with base(1,2) have "delivered (history c) + closeTasks c = 1" by simp
    with that have one: "closeTasks c = 1" and none: "delivered (history c) = 0" by arith+
    have d: "delivered (history ?c') = 1"
      using none by (simp add: notifyClose_def emit_def delivered_def)
    have t: "closeTasks ?c' = 0"
      using one by (simp add: notifyClose_def emit_def)
    have hh: "history ?c' = history c @ [(CloseTask, CallClosed (onClosed c))]"
      by (simp add: notifyClose_def emit_def)
    from s d t hh show ?thesis by blast
  qed
  have registered: "\<exists>c'. step (OnClosed c h) RunNotifyClose = Some c'
                  \<and> history c' = history c @ [(CloseTask, CallClosed h)]"
    if "0 < closeTasks c" "h \<noteq> None"
    using that by (auto simp: OnClosed_def notifyClose_def emit_def)
  from base le exit deliver registered show ?thesis by blast
qed

theorem closed_notified_once_witness:
  "run Wrap [DoClose] \<noteq> None
   \<and> readTask (the (run Wrap [DoClose]))
   \<and> hideTempError (Some EOF) \<noteq> None
   \<and> (\<exists>c'. step (the (run Wrap [DoClose])) (ReadIter None (Some EOF)) = Some c'
            \<and> \<not> readTask c' \<and> dispatched (history c') = 1 \<and> closeTasks c' = 1)
   \<and> run Wrap [DoClose, ReadIter None (Some EOF), DoClose] \<noteq> None
   \<and> 0 < closeTasks (the (run Wrap [DoClose, ReadIter None (Some EOF), DoClose]))
   \<and> (\<exists>c'. step (the (run Wrap [DoClose, ReadIter None (Some EOF), DoClose])) RunNotifyClose
              = Some c'
            \<and> delivered (history c') = 1 \<and> closeTasks c' = 0)
   \<and> (\<exists>c'. step (OnClosed (the (run Wrap [DoClose, ReadIter None (Some EOF), DoClose]))
                    (Some (Fn 3))) RunNotifyClose = Some c'
            \<and> history c' =
                history (the (run Wrap [DoClose, ReadIter None (Some EOF), DoClose]))
                  @ [(CloseTask, CallClosed (Some (Fn 3)))])
   \<and> ceased (history (the (run Wrap [DoClose, ReadIter None (Some EOF), DoClose])))"
proof -
  let ?a = "[DoClose]"
  let ?b = "[DoClose, ReadIter None (Some EOF), DoClose]"
  have na: "run Wrap ?a \<noteq> None" and nb: "run Wrap ?b \<noteq> None"
    by code_simp+
  then have ra: "run Wrap ?a = Some (the (run Wrap ?a))"
    and rb: "run Wrap ?b = Some (the (run Wrap ?b))"
    by (metis option.collapse)+
  have fa: "readTask (the (run Wrap ?a))" and fb: "0 < closeTasks (the (run Wrap ?b))"
    by code_simp+
  have h: "hideTempError (Some EOF) \<noteq> None"
    by (simp add: hideTempError_simps)
  have f: "Some (Fn 3) \<noteq> None"
    by simp
  from closed_notified_once [OF ra, where err = "Some EOF" and data = None]
    closed_notified_once [OF rb, where h = "Some (Fn 3)"] na nb fa fb h f
  show ?thesis by blast
qed

text \<open>
  C2. \<^verbatim>\<open>Send\<close> writes the data. When the write returns no error, or an error
  that is a \<^verbatim>\<open>net.Error\<close> with \<^verbatim>\<open>Temporary()\<close> true, the stream is not closed
  and nil is returned; for every other error the stream is closed and that very
  error is returned.
\<close>

theorem Send_result:
  "(w = None \<longrightarrow> Send g c data w = (emit g (InnerWrite data) c, None))
   \<and> (w = Some e \<and> as_net_Error e = Some True \<longrightarrow>
        Send g c data w = (emit g (InnerWrite data) c, None))
   \<and> (w = Some e \<and> as_net_Error e \<noteq> Some True \<longrightarrow>
        Send g c data w = (emit g InnerClose (emit g (InnerWrite data) c), Some e))"
  by (simp add: Send_def hideTempError_simps)

theorem Send_result_witness:
  "Send Caller Wrap (Some [1]) None = (emit Caller (InnerWrite (Some [1])) Wrap, None)
   \<and> Send Caller Wrap (Some [1]) (Some (NetError True ''MOCK'')) =
       (emit Caller (InnerWrite (Some [1])) Wrap, None)
   \<and> Send Caller Wrap (Some [1]) (Some (OtherError ''WRITE'')) =
       (emit Caller InnerClose (emit Caller (InnerWrite (Some [1])) Wrap), Some (OtherError ''WRITE''))"
  using Send_result [where w = None and g = Caller and c = Wrap and data = "Some [1]"]
    Send_result [where w = "Some (NetError True ''MOCK'')" and e = "NetError True ''MOCK''"
      and g = Caller and c = Wrap and data = "Some [1]"]
    Send_result [where w = "Some (OtherError ''WRITE'')" and e = "OtherError ''WRITE''"
      and g = Caller and c = Wrap and data = "Some [1]"]
  by simp

text \<open>
  C3 as stated fails. A write on a closed connection fails with a
  \<^verbatim>\<open>*net.OpError\<close> reading "use of closed network connection", which is not
  temporary; the task of \<^verbatim>\<open>SendAsync\<close> hands it to the error handler. The
  run is the one of the test \<^verbatim>\<open>TestErr\<close>: register an error handler, close
  (the read task sees the closed connection and ends, \<^verbatim>\<open>Close\<close> returns), then
  send asynchronously. And in the read loop such an error ends the loop only when
  it is not temporary.
\<close>

theorem closed_error_reaches_handler:
  "isClosedConnErrr (Some (OpError False ''use of closed network connection''))
   \<and> map_option history
        (run Wrap [DoOnErr (Some (Fn 1)), DoClose,
                   ReadIter None (Some (OpError False ''use of closed network connection'')),
                   CloseReturns, DoSendAsync (Some [104]),
                   RunSend 0 (Some (OpError False ''use of closed network connection''))])
      = Some [(Caller, WgAdd), (Caller, Go ReadTask), (Caller, InnerClose),
              (ReadTask, ReaderCall), (ReadTask, InnerClose), (ReadTask, WgDone),
              (ReadTask, Go CloseTask), (Caller, WaitReturn), (Caller, WgAdd),
              (Caller, Go SendTask), (SendTask, InnerWrite (Some [104])), (SendTask, InnerClose),
              (SendTask, CallErr (Some (Fn 1)) (OpError False ''use of closed network connection'')),
              (SendTask, WgDone)]
   \<and> \<not> fst (runRead_iter Wrap (None, Some (OpError False ''use of closed network connection'')))
   \<and> fst (runRead_iter Wrap (None, Some (OpError True ''use of closed network connection'')))"
  by (simp add: isClosedConnErrr_simps Wrap_def conn_defs hideTempError_simps Let_def)

text \<open>
  C3 as amended. For every closed-connection error the framing function returns,
  the read loop does not call the error handler, and when the error is not
  transient the loop ends having done nothing else. \<^verbatim>\<open>Send\<close> never calls the
  error handler, whatever the write returns. The task of \<^verbatim>\<open>SendAsync\<close> closes
  the stream and calls the error handler with every write error that is not
  transient, a closed-connection error or not; after a write without error or
  with a transient error it calls no handler.
\<close>

theorem closed_error_handling:
  "(isClosedConnErrr (Some e) \<longrightarrow>
      err_calls (history (snd (runRead_iter c (data, Some e)))) = err_calls (history c)
      \<and> (as_net_Error e \<noteq> Some True \<longrightarrow>
           runRead_iter c (data, Some e) = (False, emit ReadTask ReaderCall c)))
   \<and> err_calls (history (fst (Send g c data w))) = err_calls (history c)
   \<and> (as_net_Error e \<noteq> Some True \<longrightarrow>
        SendAsync_go c data (Some e) =
          wg_Done SendTask
            (emit SendTask (CallErr (onErr c) e)
               (emit SendTask InnerClose (emit SendTask (InnerWrite data) c))))
   \<and> (hideTempError w = None \<longrightarrow>
        SendAsync_go c data w = wg_Done SendTask (emit SendTask (InnerWrite data) c))"
  by (cases w)
     (simp_all add: runRead_iter_def hideTempError_simps notifyData_def notifyErr_def Send_def
       SendAsync_go_def emit_def err_calls_def Let_def)

theorem closed_error_handling_witness:
  "isClosedConnErrr (Some EOF)
   \<and> runRead_iter Wrap (None, Some EOF) = (False, emit ReadTask ReaderCall Wrap)
   \<and> err_calls (history (fst (Send Caller Wrap None (Some (OtherError ''WRITE''))))) = []
   \<and> isClosedConnErrr (Some (OpError False ''use of closed network connection''))
   \<and> SendAsync_go Wrap (Some [1]) (Some (OpError False ''use of closed network connection'')) =
       wg_Done SendTask
         (emit SendTask (CallErr (onErr Wrap) (OpError False ''use of closed network connection''))
            (emit SendTask InnerClose (emit SendTask (InnerWrite (Some [1])) Wrap)))
   \<and> SendAsync_go Wrap (Some [1]) (Some (OtherError ''WRITE'')) =
       wg_Done SendTask
         (emit SendTask (CallErr (onErr Wrap) (OtherError ''WRITE''))
            (emit SendTask InnerClose (emit SendTask (InnerWrite (Some [1])) Wrap)))
   \<and> SendAsync_go Wrap (Some [1]) (Some (NetError True ''MOCK'')) =
       wg_Done SendTask (emit SendTask (InnerWrite (Some [1])) Wrap)"
proof -
  have c1: "isClosedConnErrr (Some EOF)"
    and c2: "isClosedConnErrr (Some (OpError False ''use of closed network connection''))"
    by (simp_all add: isClosedConnErrr_simps)
  have n1: "as_net_Error EOF \<noteq> Some True"
    and n2: "as_net_Error (OpError False ''use of closed network connection'') \<noteq> Some True"
    and n3: "as_net_Error (OtherError ''WRITE'') \<noteq> Some True"
    by simp_all
  have t: "hideTempError (Some (NetError True ''MOCK'')) = None"
    by (simp add: hideTempError_simps)
  have e: "err_calls (history Wrap) = []"
    by (simp add: err_calls_def Wrap_def wg_Add_def emit_def)
  note a = closed_error_handling [where e = EOF and c = Wrap and data = None and g = Caller
      and w = "Some (OtherError ''WRITE'')"]
  note b = closed_error_handling [where e = "OpError False ''use of closed network connection''"
      and c = Wrap and data = "Some [1]"]
  note d = closed_error_handling [where e = "OtherError ''WRITE''" and c = Wrap
      and data = "Some [1]" and w = "Some (NetError True ''MOCK'')"]
  from a c1 n1 e have "runRead_iter Wrap (None, Some EOF) = (False, emit ReadTask ReaderCall Wrap)"
    and "err_calls (history (fst (Send Caller Wrap None (Some (OtherError ''WRITE''))))) = []"
    by simp_all
  moreover from b n2 have "SendAsync_go Wrap (Some [1]) (Some (OpError False ''use of closed network connection'')) =
       wg_Done SendTask
         (emit SendTask (CallErr (onErr Wrap) (OpError False ''use of closed network connection''))
            (emit SendTask InnerClose (emit SendTask (InnerWrite (Some [1])) Wrap)))"
    by blast
  moreover from d n3 t have "SendAsync_go Wrap (Some [1]) (Some (OtherError ''WRITE'')) =
       wg_Done SendTask
         (emit SendTask (CallErr (onErr Wrap) (OtherError ''WRITE''))
            (emit SendTask InnerClose (emit SendTask (InnerWrite (Some [1])) Wrap)))"
    and "SendAsync_go Wrap (Some [1]) (Some (NetError True ''MOCK'')) =
       wg_Done SendTask (emit SendTask (InnerWrite (Some [1])) Wrap)"
    by blast+
  ultimately show ?thesis using c1 c2 by blast
qed

text \<open>
  C4 as stated fails. The loop replaces a transient error by nil and goes on as
  for a success, so data that is not empty and comes with a transient error is
  dispatched to the data handler.
\<close>

theorem transient_error_dispatches_data:
  "runRead_iter (OnData Wrap (Some (Fn 1))) (Some [104], Some (NetError True ''MOCK'')) =
     (True, emit ReadTask (CallData (Some (Fn 1)) (Some [104]))
              (emit ReadTask ReaderCall (OnData Wrap (Some (Fn 1)))))"
  by (simp add: runRead_iter_def hideTempError_simps notifyData_def len_def OnData_def emit_def)

text \<open>
  C4 as amended. When the framing function returns a transient error, the
  iteration is the one for the same data without an error: the error handler is
  not called, the loop goes on, empty data is skipped and data that is not empty
  is dispatched to the data handler.
\<close>

theorem transient_error_as_success:
  "as_net_Error e = Some True \<longrightarrow>
     runRead_iter c (data, Some e) = runRead_iter c (data, None)
     \<and> fst (runRead_iter c (data, Some e))
     \<and> runRead c ((data, Some e) # rs) = runRead (snd (runRead_iter c (data, Some e))) rs
     \<and> err_calls (history (snd (runRead_iter c (data, Some e)))) = err_calls (history c)
     \<and> (len data = 0 \<longrightarrow>
          snd (runRead_iter c (data, Some e)) = emit ReadTask ReaderCall c)
     \<and> (0 < len data \<longrightarrow>
          snd (runRead_iter c (data, Some e)) =
            emit ReadTask (CallData (onData c) data) (emit ReadTask ReaderCall c))"
  by (simp add: runRead_iter_def hideTempError_simps notifyData_def emit_def err_calls_def Let_def)

theorem transient_error_as_success_witness:
  "as_net_Error (NetError True ''MOCK'') = Some True
   \<and> fst (runRead_iter Wrap (None, Some (NetError True ''MOCK'')))
   \<and> snd (runRead_iter Wrap (None, Some (NetError True ''MOCK''))) = emit ReadTask ReaderCall Wrap
   \<and> snd (runRead_iter Wrap (Some [104], Some (NetError True ''MOCK''))) =
       emit ReadTask (CallData (onData Wrap) (Some [104])) (emit ReadTask ReaderCall Wrap)"
proof -
  have h: "as_net_Error (NetError True ''MOCK'') = Some True"
    by simp
  have l0: "len None = 0" and l1: "0 < len (Some [104::byte])"
    by (simp_all add: len_def)
  note a = transient_error_as_success [where e = "NetError True ''MOCK''" and c = Wrap
      and data = None and rs = "[]", THEN mp, OF h]
  note b = transient_error_as_success [where e = "NetError True ''MOCK''" and c = Wrap
      and data = "Some [104]" and rs = "[]", THEN mp, OF h]
  from a l0 b l1 h show ?thesis by blast
qed

text \<open>
  C5. When the reads deliver the bytes \<open>bs\<close> one at a time without error and
  \<open>bs\<close> contains the byte 0x0A, \<^verbatim>\<open>ReadLineReader\<close> returns, with a nil error,
  the bytes up to and including the first 0x0A, and leaves the rest of the stream
  unread. When a read fails before any 0x0A was delivered, it returns the error
  of that read.
\<close>

theorem ReadLineReader_line:
  "(10 \<in> set bs \<longrightarrow>
      ReadLineReader (map read_ok bs @ rest) =
        Some ((Some (takeWhile (\<lambda>b. b \<noteq> 10) bs @ [10]), None),
              map read_ok (tl (dropWhile (\<lambda>b. b \<noteq> 10) bs)) @ rest))
   \<and> (10 \<notin> set bs \<and> rd_err r = Some e \<longrightarrow>
      ReadLineReader (map read_ok bs @ r # rest) = Some ((None, Some e), rest))"
  using ReadLineReader_loop_ok [of bs "[]" 0 rest] ReadLineReader_loop_fail [of bs r e "[]" 0 rest]
  by (simp add: ReadLineReader_def)

theorem ReadLineReader_line_witness:
  "ReadLineReader (map read_ok [112, 105, 10, 112, 10] @ [])
     = Some ((Some [112, 105, 10], None), map read_ok [112, 10])
   \<and> ReadLineReader (map read_ok [112, 105] @ \<lparr>rd_n = 0, rd_byte = None, rd_err = Some EOF\<rparr> # [read_ok 10])
     = Some ((None, Some EOF), [read_ok 10])"
  using ReadLineReader_line [where bs = "[112, 105, 10, 112, 10]" and rest = "[]"]
    ReadLineReader_line [where bs = "[112, 105]" and rest = "[read_ok 10]"
      and r = "\<lparr>rd_n = 0, rd_byte = None, rd_err = Some EOF\<rparr>" and e = EOF]
  by simp

text \<open>
  C6 as stated fails. The goroutine that delivers the closed notification is
  started after the read task has called \<^verbatim>\<open>wg.Done()\<close> and is never added to
  the wait group: after the read loop has ended, the counter is zero and a
  blocked \<^verbatim>\<open>Close\<close> returns while that goroutine is still pending, and when it
  runs it leaves the counter as it is.
\<close>

theorem close_task_unaccounted:
  "map_option wg (run Wrap [DoClose, ReadIter None (Some EOF), CloseReturns]) = Some 0
   \<and> map_option unfinished (run Wrap [DoClose, ReadIter None (Some EOF), CloseReturns]) = Some 1
   \<and> map_option closeTasks (run Wrap [DoClose, ReadIter None (Some EOF), CloseReturns]) = Some 1
   \<and> map_option waiters (run Wrap [DoClose, ReadIter None (Some EOF), CloseReturns]) = Some 0
   \<and> map_option wg (run Wrap [DoClose, ReadIter None (Some EOF), CloseReturns, RunNotifyClose])
       = Some 0"
  by (simp add: Wrap_def conn_defs hideTempError_simps isClosedConnErrr_def unfinished_def Let_def)

text \<open>
  C6 as amended. In every interleaving the counter is the number of tasks that
  were registered with it and have not finished: the read task and the pending
  asynchronous sends. \<^verbatim>\<open>SendAsync\<close> adds one; the task it starts subtracts one
  whatever the write returns; the read task subtracts one on every path that
  leaves its loop. The close-notification task does not change the counter.
\<close>

theorem tracked_tasks_accounted:
  "run Wrap acts = Some c \<longrightarrow>
     wg c = (if readTask c then 1 else 0) + int (length (sendTasks c))
     \<and> wg (SendAsync c data) = wg c + 1
     \<and> wg (SendAsync_go c data w) = wg c - 1
     \<and> (\<not> fst (runRead_iter c r) \<longrightarrow> wg (runRead c (r # rs)) = wg c - 1)
     \<and> wg (runRead_defer c) = wg c - 1
     \<and> wg (notifyClose CloseTask c) = wg c"
proof
  assume "run Wrap acts = Some c"
  with tracked_Wrap tracked_step have "wg c = tracked c"
    by (rule run_invariant [where P = "\<lambda>c. wg c = tracked c"])
  moreover have "wg (SendAsync c data) = wg c + 1"
    by (simp add: SendAsync_def wg_Add_def emit_def Let_def)
  moreover have "wg (SendAsync_go c data w) = wg c - 1"
    by (simp add: SendAsync_go_def Send_def notifyErr_def wg_Done_def emit_def Let_def
        split: option.splits)
  moreover have "wg (runRead_defer c) = wg c - 1" "wg (notifyClose CloseTask c) = wg c"
    by (simp_all add: runRead_defer_def notifyClose_def wg_Done_def emit_def Let_def)
  ultimately show "wg c = (if readTask c then 1 else 0) + int (length (sendTasks c))
     \<and> wg (SendAsync c data) = wg c + 1
     \<and> wg (SendAsync_go c data w) = wg c - 1
     \<and> (\<not> fst (runRead_iter c r) \<longrightarrow> wg (runRead c (r # rs)) = wg c - 1)
     \<and> wg (runRead_defer c) = wg c - 1
     \<and> wg (notifyClose CloseTask c) = wg c"
    using wg_runRead_exit [of c r rs] by (simp add: tracked_def del: runRead.simps)
qed

theorem tracked_tasks_accounted_witness:
  "run Wrap [DoSendAsync (Some [1]), DoSendAsync (Some [2]), RunSend 1 (Some (OtherError ''WRITE''))]
     \<noteq> None
   \<and> wg (the (run Wrap [DoSendAsync (Some [1]), DoSendAsync (Some [2]),
                        RunSend 1 (Some (OtherError ''WRITE''))])) = 2
   \<and> wg (runRead (the (run Wrap [DoSendAsync (Some [1]), DoSendAsync (Some [2]),
                        RunSend 1 (Some (OtherError ''WRITE''))])) [(None, Some EOF)]) = 1"
proof -
  let ?acts = "[DoSendAsync (Some [1]), DoSendAsync (Some [2]), RunSend 1 (Some (OtherError ''WRITE''))]"
  let ?c = "the (run Wrap ?acts)"
  have ne: "run Wrap ?acts \<noteq> None"
    by code_simp
  then have r: "run Wrap ?acts = Some ?c"
    by (metis option.collapse)
  have f: "readTask ?c" "length (sendTasks ?c) = 1"
    by code_simp+
  have x: "\<not> fst (runRead_iter ?c (None, Some EOF))"
    by (simp add: runRead_iter_def hideTempError_simps isClosedConnErrr_def Let_def
        del: run.simps)
  from tracked_tasks_accounted [where acts = ?acts and c = ?c and r = "(None, Some EOF)" and rs = "[]"]
    r f x
  have "wg ?c = 2" and "wg (runRead ?c [(None, Some EOF)]) = wg ?c - 1"
    by (simp_all del: run.simps runRead.simps)
  with ne show ?thesis by (simp del: run.simps runRead.simps)
qed

text \<open>
  C7. After \<^verbatim>\<open>Wrap\<close> and after any sequence of calls and steps of the tasks
  (any registration with any argument among them), none of the three slots is
  nil and no call has invoked a nil function. Registering nil stores the no-op
  of that slot; registering a function stores it.
\<close>

theorem handlers_never_nil:
  "run Wrap acts = Some c \<longrightarrow>
     onData c \<noteq> None \<and> onErr c \<noteq> None \<and> onClosed c \<noteq> None
     \<and> nil_calls (history c) = []
     \<and> onData (OnData c None) = onDataNop
     \<and> onErr (OnErr c None) = onErrNop
     \<and> onClosed (OnClosed c None) = onClosedNop
     \<and> (h \<noteq> None \<longrightarrow>
          onData (OnData c h) = h \<and> onErr (OnErr c h) = h \<and> onClosed (OnClosed c h) = h)"
proof
  assume "run Wrap acts = Some c"
  with handlers_inv_Wrap handlers_inv_step have "handlers_inv c"
    by (rule run_invariant)
  then show "onData c \<noteq> None \<and> onErr c \<noteq> None \<and> onClosed c \<noteq> None
     \<and> nil_calls (history c) = []
     \<and> onData (OnData c None) = onDataNop
     \<and> onErr (OnErr c None) = onErrNop
     \<and> onClosed (OnClosed c None) = onClosedNop
     \<and> (h \<noteq> None \<longrightarrow>
          onData (OnData c h) = h \<and> onErr (OnErr c h) = h \<and> onClosed (OnClosed c h) = h)"
    by (simp add: handlers_inv_def OnData_def OnErr_def OnClosed_def)
qed

theorem handlers_never_nil_witness:
  "run Wrap [DoOnData (Some (Fn 1)), DoOnData None, DoOnErr None, DoOnClosed None,
             ReadIter (Some [104]) None, ReadIter None (Some (OtherError ''READ'')),
             RunNotifyClose] \<noteq> None
   \<and> onData (the (run Wrap [DoOnData (Some (Fn 1)), DoOnData None, DoOnErr None, DoOnClosed None,
             ReadIter (Some [104]) None, ReadIter None (Some (OtherError ''READ'')),
             RunNotifyClose])) \<noteq> None
   \<and> nil_calls (history (the (run Wrap [DoOnData (Some (Fn 1)), DoOnData None, DoOnErr None,
             DoOnClosed None, ReadIter (Some [104]) None,
             ReadIter None (Some (OtherError ''READ'')), RunNotifyClose]))) = []
   \<and> onClosed (OnClosed (the (run Wrap [DoOnData (Some (Fn 1)), DoOnData None, DoOnErr None,
             DoOnClosed None, ReadIter (Some [104]) None,
             ReadIter None (Some (OtherError ''READ'')), RunNotifyClose])) (Some (Fn 2)))
       = Some (Fn 2)"
proof -
  let ?acts = "[DoOnData (Some (Fn 1)), DoOnData None, DoOnErr None, DoOnClosed None,
             ReadIter (Some [104]) None, ReadIter None (Some (OtherError ''READ'')),
             RunNotifyClose]"
  have ne: "run Wrap ?acts \<noteq> None"
    by code_simp
  then have r: "run Wrap ?acts = Some (the (run Wrap ?acts))"
    by (metis option.collapse)
  have h: "Some (Fn 2) \<noteq> None"
    by simp
  from handlers_never_nil [where acts = ?acts and c = "the (run Wrap ?acts)" and h = "Some (Fn 2)"]
    r ne h
  show ?thesis by blast
qed

text \<open>
  C8. When the framing function returns data and a nil error, the iteration
  calls no handler if the data is empty (or nil), calls the data handler once
  with exactly that data otherwise, and in both cases the loop goes on with the
  next result.
\<close>

theorem success_dispatch:
  "(len data = 0 \<longrightarrow> runRead_iter c (data, None) = (True, emit ReadTask ReaderCall c))
   \<and> (0 < len data \<longrightarrow>
        runRead_iter c (data, None) =
          (True, emit ReadTask (CallData (onData c) data) (emit ReadTask ReaderCall c)))
   \<and> runRead c ((data, None) # rs) = runRead (snd (runRead_iter c (data, None))) rs"
  by (simp add: runRead_iter_def hideTempError_simps notifyData_def emit_def Let_def)

theorem success_dispatch_witness:
  "runRead_iter Wrap (Some [], None) = (True, emit ReadTask ReaderCall Wrap)
   \<and> runRead_iter Wrap (None, None) = (True, emit ReadTask ReaderCall Wrap)
   \<and> runRead_iter (OnData Wrap (Some (Fn 1))) (Some [112, 10], None) =
       (True, emit ReadTask (CallData (Some (Fn 1)) (Some [112, 10]))
                (emit ReadTask ReaderCall (OnData Wrap (Some (Fn 1)))))"
  using success_dispatch [where data = "Some []" and c = Wrap]
    success_dispatch [where data = None and c = Wrap]
    success_dispatch [where data = "Some [112, 10]" and c = "OnData Wrap (Some (Fn 1))"]
  by (simp add: len_def OnData_def)

text \<open>
  C9. When a read returns an error, whatever count and byte come with it and
  whatever was accumulated before, \<^verbatim>\<open>ReadLineReader\<close> returns the nil slice and
  that error; hence every result with an error has the nil slice.
\<close>

theorem ReadLineReader_error_nil:
  "(rd_err r = Some e \<longrightarrow>
      ReadLineReader_loop buffer rb (r # rs) = Some ((None, Some e), rs))
   \<and> (ReadLineReader s = Some ((d, err), rest) \<and> err \<noteq> None \<longrightarrow> d = None)"
  using ReadLineReader_loop_nil [of "[]" 0 s d err rest]
  by (auto simp: ReadLineReader_def Let_def)

theorem ReadLineReader_error_nil_witness:
  "ReadLineReader_loop [112, 105] 105 (\<lparr>rd_n = 1, rd_byte = Some 110, rd_err = Some (OtherError ''READ'')\<rparr> # [])
     = Some ((None, Some (OtherError ''READ'')), [])
   \<and> ReadLineReader (map read_ok [112, 105] @ [\<lparr>rd_n = 1, rd_byte = Some 10, rd_err = Some EOF\<rparr>])
     = Some ((None, Some EOF), [])"
proof -
  let ?r = "\<lparr>rd_n = 1, rd_byte = Some 110, rd_err = Some (OtherError ''READ'')\<rparr>"
  let ?s = "map read_ok [112, 105] @ [\<lparr>rd_n = 1, rd_byte = Some 10, rd_err = Some EOF\<rparr>]"
  have ev: "ReadLineReader ?s = Some ((fst (fst (the (ReadLineReader ?s))), Some EOF), [])"
    by (simp add: ReadLineReader_def read_ok_def)
  from ReadLineReader_error_nil [where r = ?r and e = "OtherError ''READ''"
      and buffer = "[112, 105]" and rb = 105 and rs = "[]" and s = ?s
      and d = "fst (fst (the (ReadLineReader ?s)))" and err = "Some EOF" and rest = "[]"] ev
  show ?thesis by simp
qed

text \<open>
  C10. An error that is temporary and also passes the closed-connection test is
  treated as transient: the read loop goes on and the read task keeps running,
  \<^verbatim>\<open>Send\<close> returns nil without closing the stream, and the task of
  \<^verbatim>\<open>SendAsync\<close> neither closes the stream nor calls the error handler.
\<close>

theorem transient_before_closed:
  "as_net_Error e = Some True \<and> isClosedConnErrr (Some e) \<longrightarrow>
     fst (runRead_iter c (data, Some e))
     \<and> runRead c ((data, Some e) # rs) = runRead (snd (runRead_iter c (data, Some e))) rs
     \<and> readTask (snd (runRead_iter c (data, Some e))) = readTask c
     \<and> Send g c data (Some e) = (emit g (InnerWrite data) c, None)
     \<and> SendAsync_go c data (Some e) = wg_Done SendTask (emit SendTask (InnerWrite data) c)"
  by (simp add: runRead_iter_def hideTempError_simps notifyData_def Send_def SendAsync_go_def
      Let_def)

theorem transient_before_closed_witness:
  "as_net_Error (OpError True ''use of closed network connection'') = Some True
   \<and> isClosedConnErrr (Some (OpError True ''use of closed network connection''))
   \<and> fst (runRead_iter Wrap (None, Some (OpError True ''use of closed network connection'')))
   \<and> Send Caller Wrap (Some [1]) (Some (OpError True ''use of closed network connection''))
       = (emit Caller (InnerWrite (Some [1])) Wrap, None)"
  using transient_before_closed [where e = "OpError True ''use of closed network connection''"
      and c = Wrap and data = None and g = Caller]
    transient_before_closed [where e = "OpError True ''use of closed network connection''"
      and c = Wrap and data = "Some [1]" and g = Caller]
  by (simp add: isClosedConnErrr_simps)

end
